theory Spec2Isabelle
  imports Main "HOL-Library.AList" "HOL-Library.Multiset"
begin

section \<open>Strings: the functions of Go's \<open>strings\<close> package that the program calls\<close>

text \<open>
  A Go string is a sequence of bytes; \<^typ>\<open>string\<close> is a list of 8-bit characters.
  Every function below is the byte-level meaning of the Go function of the same name.
\<close>

definition strings_HasPrefix :: "string \<Rightarrow> string \<Rightarrow> bool" where
  "strings_HasPrefix s p = (take (length p) s = p)"

definition strings_HasSuffix :: "string \<Rightarrow> string \<Rightarrow> bool" where
  "strings_HasSuffix s p = (length p \<le> length s \<and> drop (length s - length p) s = p)"

definition strings_TrimPrefix :: "string \<Rightarrow> string \<Rightarrow> string" where
  "strings_TrimPrefix s p = (if strings_HasPrefix s p then drop (length p) s else s)"

definition strings_TrimSuffix :: "string \<Rightarrow> string \<Rightarrow> string" where
  "strings_TrimSuffix s p =
     (if strings_HasSuffix s p then take (length s - length p) s else s)"

text \<open>\<open>strings.TrimRight(s, "/")\<close>: every trailing slash is removed.\<close>

definition trimRightSlash :: "string \<Rightarrow> string" where
  "trimRightSlash s = rev (dropWhile (\<lambda>c. c = CHR ''/'') (rev s))"

fun strings_Contains :: "string \<Rightarrow> string \<Rightarrow> bool" where
  "strings_Contains [] sub = (sub = [])"
| "strings_Contains (c # cs) sub =
     (strings_HasPrefix (c # cs) sub \<or> strings_Contains cs sub)"

text \<open>\<open>strings.SplitN(s, " ", 2)\<close>: cut at the first space, one part when there is none.\<close>

definition splitN2_space :: "string \<Rightarrow> string list" where
  "splitN2_space s =
     (if CHR '' '' \<in> set s
      then [takeWhile (\<lambda>c. c \<noteq> CHR '' '') s, tl (dropWhile (\<lambda>c. c \<noteq> CHR '' '') s)]
      else [s])"

section \<open>Configuration: the package-level variables populated by flags\<close>

record globals =
  ssoRoleNames :: "string list"
  profilePrefix :: string
  useAutoPrefix :: bool
  ssoStartURL :: string
  ssoSessionConfigName :: string
  ssoRegion :: string
  dryRun :: bool
  openBrowser :: bool
  profileOutput :: string

definition defaultSSOSessionConfigName :: string where
  "defaultSSOSessionConfigName = ''default''"

record CombinedRole =
  AccountId :: string
  RoleName :: string
  AccountName :: string

section \<open>Profile naming\<close>

definition generatePrefixFromRole :: "string \<Rightarrow> string" where
  "generatePrefixFromRole roleName =
     (let cleaned = strings_TrimPrefix roleName ''AWS'';
          cleaned = strings_TrimSuffix cleaned ''Access''
      in if cleaned \<noteq> [] then cleaned @ ''_'' else [])"

text \<open>
  The character class of the regular expression \<open>[_\s]+\<close>: an underscore or one of
  RE2's \<open>\s\<close> characters, which are tab, line feed, form feed, carriage return and space.
\<close>

definition is_sep :: "char \<Rightarrow> bool" where
  "is_sep c = (c = CHR ''_'' \<or> c = CHR 0x09 \<or> c = CHR 0x0A \<or> c = CHR 0x0C
                \<or> c = CHR 0x0D \<or> c = CHR '' '')"

text \<open>
  \<open>re.ReplaceAllString(name, "-")\<close>: each maximal run of separator characters becomes
  one hyphen.
\<close>

function replaceSeparatorRuns :: "string \<Rightarrow> string" where
  "replaceSeparatorRuns [] = []"
| "replaceSeparatorRuns (c # cs) =
     (if is_sep c then CHR ''-'' # replaceSeparatorRuns (dropWhile is_sep cs)
      else c # replaceSeparatorRuns cs)"
  by pat_completeness auto
termination
  by (relation "measure length") (auto simp: length_dropWhile_le less_Suc_eq_le)

definition getProfileNameFromRole :: "globals \<Rightarrow> CombinedRole \<Rightarrow> string" where
  "getProfileNameFromRole g role =
     (let safeAccountName = replaceSeparatorRuns (AccountName role);
          prefix = (if profilePrefix g \<noteq> [] then profilePrefix g
                    else if useAutoPrefix g then generatePrefixFromRole (RoleName role)
                    else [])
      in if prefix \<noteq> [] then prefix @ safeAccountName @ ''_'' @ AccountId role
         else safeAccountName @ ''_'' @ AccountId role)"

section \<open>The world the program runs in\<close>

text \<open>
  Errors are values. \<open>SdkError\<close> is an error returned by a call of the AWS SDK and carries
  its message; \<open>IOError\<close> is an error of the \<open>os\<close> package and names the call that failed.
  The other constructors are the errors the program builds itself with \<open>fmt.Errorf\<close>.
\<close>

datatype error =
    SdkError string
  | IOError string
  | NoTokenForStartUrl string
  | MultipleMatchingSessions string string
  | NoAccessTokenFromDeviceAuthorization
  | LoginProducedNoValidToken "error option"

text \<open>
  The configuration file is parsed and written by the library \<open>gopkg.in/ini.v1\<close>, which is
  not part of the program. A parsed file is an ordered list of named sections, each an ordered
  list of keys with their values; the implicit \<open>DEFAULT\<close> section and the inheritance of
  keys by child sections are left out. The parser and the printer are parameters:
  \<open>ini_parse\<close> is what \<open>ini.Load\<close> makes of the bytes of a file (\<open>None\<close> when it fails),
  \<open>ini_render\<close> the bytes that \<open>File.SaveTo\<close> writes.
\<close>

type_synonym ini_section = "string \<times> (string \<times> string) list"
type_synonym ini_file = "ini_section list"

record ini_lib =
  ini_parse :: "string \<Rightarrow> ini_file option"
  ini_render :: "ini_file \<Rightarrow> string"

text \<open>\<open>section.Key(k).String()\<close> is the empty string when the key is absent.\<close>

definition key_String :: "(string \<times> string) list \<Rightarrow> string \<Rightarrow> string" where
  "key_String keys k = (case map_of keys k of None \<Rightarrow> [] | Some v \<Rightarrow> v)"

definition section_HasKey :: "(string \<times> string) list \<Rightarrow> string \<Rightarrow> bool" where
  "section_HasKey keys k = (map_of keys k \<noteq> None)"

text \<open>\<open>cfg.Section(name)\<close> never returns nil: an absent section is created empty.\<close>

definition file_Section :: "ini_file \<Rightarrow> string \<Rightarrow> (string \<times> string) list" where
  "file_Section cfg name = (case map_of cfg name of None \<Rightarrow> [] | Some keys \<Rightarrow> keys)"

text \<open>
  A file of the token cache, as the program observes it: its name, what reading and
  unmarshalling it gives, and the modification time \<open>f.Info()\<close> reports, in nanoseconds
  since the Unix epoch (\<open>None\<close> when \<open>Info\<close> fails).
\<close>

datatype json_value = JString string | JNumber int | JNull

datatype file_content = ReadError | NotJson | JsonObject "(string \<times> json_value) list"

record cache_file =
  fileName :: string
  content :: file_content
  info :: "int option"

text \<open>
  The state outside the program: the bytes of the configuration file (\<open>None\<close> when the file
  does not exist), the files of the cache directory in the order \<open>os.ReadDir\<close> lists them
  (\<open>None\<close> when the directory does not exist), the home directory and the wall clock in
  nanoseconds since the Unix epoch.
\<close>

record world =
  config_file :: "string option"
  cache_dir :: "cache_file list option"
  homeDir :: string
  clock :: int

text \<open>One second, in nanoseconds: \<open>time.Second\<close>.\<close>

definition second :: int where
  "second = 1000000000"

text \<open>Which calls of the \<open>os\<close> package fail during a run.\<close>

record io_faults =
  fail_ReadFile :: bool
  fail_OpenFile :: bool
  fail_WriteString :: bool
  fail_MkdirAll :: bool
  fail_WriteFile :: bool
  fail_SaveTo :: bool
  fail_cache_MkdirAll :: bool
  fail_cache_WriteFile :: bool
  fail_cache_Rename :: bool

definition no_faults :: io_faults where
  "no_faults = \<lparr>fail_ReadFile = False, fail_OpenFile = False, fail_WriteString = False,
     fail_MkdirAll = False, fail_WriteFile = False, fail_SaveTo = False,
     fail_cache_MkdirAll = False, fail_cache_WriteFile = False, fail_cache_Rename = False\<rparr>"

definition ini_Load :: "ini_lib \<Rightarrow> world \<Rightarrow> ini_file option" where
  "ini_Load lib w = (case config_file w of None \<Rightarrow> None | Some text \<Rightarrow> ini_parse lib text)"

section \<open>Session reconciliation\<close>

definition newline :: string where
  "newline = [CHR 0x0A]"

definition sessionHeader :: "globals \<Rightarrow> string" where
  "sessionHeader g = ''[sso-session '' @ ssoSessionConfigName g @ '']''"

definition sessionBlock :: "globals \<Rightarrow> string" where
  "sessionBlock g =
     ''[sso-session '' @ ssoSessionConfigName g @ '']'' @ newline @
     ''sso_start_url = '' @ trimRightSlash (ssoStartURL g) @ newline @
     ''sso_region = '' @ ssoRegion g @ newline @
     ''sso_registration_scopes = sso:account:access'' @ newline"

text \<open>The loop of \<open>findAllMatchingSsoSessionNames\<close> over the sections of the parsed file.\<close>

fun matchingSessionNames :: "string \<Rightarrow> string \<Rightarrow> ini_file \<Rightarrow> string list \<Rightarrow> string list" where
  "matchingSessionNames normStart region [] matches = matches"
| "matchingSessionNames normStart region (sec # secs) matches =
     (let name = fst sec in
      if strings_HasPrefix name ''sso-session '' then
        (let ssoStart = trimRightSlash (key_String (snd sec) ''sso_start_url'');
             ssoRegion = key_String (snd sec) ''sso_region''
         in if ssoStart = normStart \<and> ssoRegion = region then
              (let parts = splitN2_space name in
               if length parts = 2
               then matchingSessionNames normStart region secs (matches @ [parts ! 1])
               else matchingSessionNames normStart region secs matches)
            else matchingSessionNames normStart region secs matches)
      else matchingSessionNames normStart region secs matches)"

definition findAllMatchingSsoSessionNames ::
    "ini_lib \<Rightarrow> string \<Rightarrow> string \<Rightarrow> world \<Rightarrow> string list option" where
  "findAllMatchingSsoSessionNames lib startURL region w =
     (let normStart = trimRightSlash startURL in
      case ini_Load lib w of
        None \<Rightarrow> None
      | Some cfg \<Rightarrow> Some (matchingSessionNames normStart region cfg []))"

text \<open>
  The end of \<open>ensureSsoSessionConfigPresent\<close>, reached when no existing session is reused:
  report the block in a dry run, append it otherwise. \<open>os.OpenFile\<close> with \<open>O_CREATE\<close>
  creates a missing file before the write is attempted.
\<close>

definition appendSessionBlock ::
    "io_faults \<Rightarrow> globals \<Rightarrow> string \<Rightarrow> world \<Rightarrow> (error + bool) \<times> globals \<times> world" where
  "appendSessionBlock io g data w =
     (if dryRun g then (Inr True, g, w)
      else
        (let needsNewline = (data \<noteq> [] \<and> last data \<noteq> CHR 0x0A);
             toWrite = (if needsNewline then newline @ sessionBlock g else sessionBlock g)
         in if fail_OpenFile io then (Inl (IOError ''OpenFile''), g, w)
            else if fail_WriteString io
              then (Inl (IOError ''WriteString''), g, w\<lparr>config_file := Some data\<rparr>)
            else (Inr True, g, w\<lparr>config_file := Some (data @ toWrite)\<rparr>)))"

definition ensureSsoSessionConfigPresent ::
    "ini_lib \<Rightarrow> io_faults \<Rightarrow> globals \<Rightarrow> world \<Rightarrow> (error + bool) \<times> globals \<times> world" where
  "ensureSsoSessionConfigPresent lib io g w =
     (if config_file w \<noteq> None \<and> fail_ReadFile io then (Inl (IOError ''ReadFile''), g, w)
      else
        (let data = (case config_file w of None \<Rightarrow> [] | Some text \<Rightarrow> text) in
         if strings_Contains data (sessionHeader g) then (Inr False, g, w)
         else if (ssoSessionConfigName g = defaultSSOSessionConfigName
                  \<or> ssoSessionConfigName g = []) \<and> config_file w \<noteq> None
           then
             (case findAllMatchingSsoSessionNames lib (ssoStartURL g) (ssoRegion g) w of
                Some matches \<Rightarrow>
                  if length matches = 1
                    then (Inr False, g\<lparr>ssoSessionConfigName := matches ! 0\<rparr>, w)
                  else if length matches > 1
                    then (Inl (MultipleMatchingSessions (ssoStartURL g) (ssoRegion g)), g, w)
                  else appendSessionBlock io g data w
              | None \<Rightarrow> appendSessionBlock io g data w)
         else appendSessionBlock io g data w))"

text \<open>The text of an error, as \<open>err.Error()\<close> gives it.\<close>

fun error_message :: "error \<Rightarrow> string" where
  "error_message (SdkError m) = m"
| "error_message (IOError m) = m"
| "error_message (NoTokenForStartUrl u) = ''no valid SSO accessToken found for startUrl '' @ u"
| "error_message (MultipleMatchingSessions u r) =
     ''multiple matching sso-session blocks found for startUrl '' @ u @ '' and region '' @ r"
| "error_message NoAccessTokenFromDeviceAuthorization =
     ''failed to obtain access token via device authorization''"
| "error_message (LoginProducedNoValidToken e) =
     ''SSO login did not produce a valid access token: '' @
       (case e of None \<Rightarrow> ''<nil>'' | Some e' \<Rightarrow> error_message e')"

section \<open>Profile synchronisation\<close>

definition setProfileKeys ::
    "globals \<Rightarrow> CombinedRole \<Rightarrow> (string \<times> string) list \<Rightarrow> (string \<times> string) list" where
  "setProfileKeys g role keys =
     AList.update ''output'' (profileOutput g)
       (AList.update ''region'' (ssoRegion g)
         (AList.update ''sso_role_name'' (RoleName role)
           (AList.update ''sso_account_id'' (AccountId role)
             (AList.update ''sso_session'' (ssoSessionConfigName g) keys))))"

text \<open>
  The document \<open>writeProfileToConfig\<close> builds in memory: the loaded file, or an empty one
  when loading fails, with the five keys set in the section of the profile, which
  \<open>cfg.NewSection\<close> creates at the end when it is absent.
\<close>

definition profileDocument ::
    "ini_lib \<Rightarrow> globals \<Rightarrow> string \<Rightarrow> CombinedRole \<Rightarrow> world \<Rightarrow> ini_file" where
  "profileDocument lib g profileName role w =
     (let cfg = (case ini_Load lib w of None \<Rightarrow> [] | Some loaded \<Rightarrow> loaded);
          sectionName = ''profile '' @ profileName
      in AList.update sectionName (setProfileKeys g role (file_Section cfg sectionName)) cfg)"

definition writeProfileToConfig ::
    "ini_lib \<Rightarrow> io_faults \<Rightarrow> globals \<Rightarrow> string \<Rightarrow> CombinedRole \<Rightarrow> world
      \<Rightarrow> error option \<times> world" where
  "writeProfileToConfig lib io g profileName role w =
     (if dryRun g then (None, w)
      else
        (let cfg = profileDocument lib g profileName role w in
         if fail_MkdirAll io then (Some (IOError ''MkdirAll''), w)
         else if fail_WriteFile io then (Some (IOError ''WriteFile''), w)
         else
           (let touched = w\<lparr>config_file := Some []\<rparr> in
            if fail_SaveTo io then (Some (IOError ''SaveTo''), touched)
            else (None, touched\<lparr>config_file := Some (ini_render lib cfg)\<rparr>))))"

definition profileExists :: "ini_lib \<Rightarrow> string \<Rightarrow> world \<Rightarrow> bool" where
  "profileExists lib profileName w =
     (case ini_Load lib w of
        None \<Rightarrow> False
      | Some cfg \<Rightarrow> section_HasKey (file_Section cfg (''profile '' @ profileName)) ''sso_session'')"

text \<open>
  The loop of \<open>configureSsoProfiles\<close> over the roles found, with the two counters of its
  summary line. A profile whose write fails is reported and counted in neither.
\<close>

fun profilesLoop ::
    "ini_lib \<Rightarrow> io_faults \<Rightarrow> globals \<Rightarrow> CombinedRole list \<Rightarrow> world \<times> nat \<times> nat
      \<Rightarrow> world \<times> nat \<times> nat" where
  "profilesLoop lib io g [] st = st"
| "profilesLoop lib io g (role # roles) (w, added, skipped) =
     (let profileName = getProfileNameFromRole g role in
      if profileExists lib profileName w
        then profilesLoop lib io g roles (w, added, skipped + 1)
      else
        (case writeProfileToConfig lib io g profileName role w of
           (Some err, w') \<Rightarrow> profilesLoop lib io g roles (w', added, skipped)
         | (None, w') \<Rightarrow> profilesLoop lib io g roles (w', added + 1, skipped)))"

text \<open>
  \<open>configureSsoProfiles\<close>. The two remote listings are inputs: \<open>listing\<close> is the error of
  \<open>listAllRolesPerAccount\<close>, called in a dry run only, and \<open>found\<close> the result of
  \<open>getCombinedListOfSsoAccountsAndRoles\<close>. The result is the error returned, the world and
  the counters \<open>added\<close> and \<open>skipped\<close>.
\<close>

definition configureSsoProfiles ::
    "ini_lib \<Rightarrow> io_faults \<Rightarrow> globals \<Rightarrow> error option \<Rightarrow> error + CombinedRole list \<Rightarrow> world
      \<Rightarrow> error option \<times> world \<times> nat \<times> nat" where
  "configureSsoProfiles lib io g listing found w =
     (if dryRun g \<and> listing \<noteq> None then (listing, w, 0, 0)
      else
        (case found of
           Inl err \<Rightarrow> (Some err, w, 0, 0)
         | Inr roles \<Rightarrow> (None, profilesLoop lib io g roles (w, 0, 0))))"

section \<open>The token cache\<close>

record candidate =
  path :: string
  startUrl :: string
  token :: string
  modTime :: int

text \<open>The type assertion \<open>cache[k].(string)\<close>: the string and whether it was one.\<close>

fun assertString :: "json_value option \<Rightarrow> string \<times> bool" where
  "assertString (Some (JString s)) = (s, True)"
| "assertString _ = ([], False)"

definition ssoCacheDir :: "world \<Rightarrow> string" where
  "ssoCacheDir w = homeDir w @ ''/.aws/sso/cache''"

text \<open>
  The loop of \<open>getAccessTokenFromSsoSessionWithPath\<close> over the listing. The time kept for
  a candidate is \<open>info.ModTime().Unix()\<close>: whole seconds.
\<close>

fun collectCandidates ::
    "string \<Rightarrow> string \<Rightarrow> cache_file list \<Rightarrow> candidate list \<Rightarrow> candidate list" where
  "collectCandidates dir target [] candidates = candidates"
| "collectCandidates dir target (f # files) candidates =
     (if strings_HasSuffix (fileName f) ''.json'' then
        (case content f of
           ReadError \<Rightarrow> collectCandidates dir target files candidates
         | NotJson \<Rightarrow> collectCandidates dir target files candidates
         | JsonObject cache \<Rightarrow>
             (case (assertString (map_of cache ''startUrl''),
                    assertString (map_of cache ''accessToken'')) of
                ((url, ok), (accessToken, tokenOk)) \<Rightarrow>
                  if ok \<and> (url = target \<or> url = trimRightSlash target) \<and> tokenOk then
                    (case info f of
                       None \<Rightarrow> collectCandidates dir target files candidates
                     | Some t \<Rightarrow>
                         collectCandidates dir target files
                           (candidates @
                             [\<lparr>path = dir @ ''/'' @ fileName f, startUrl = url,
                               token = accessToken, modTime = t div second\<rparr>]))
                  else collectCandidates dir target files candidates))
      else collectCandidates dir target files candidates)"

definition pickLatest :: "candidate list \<Rightarrow> candidate \<Rightarrow> candidate" where
  "pickLatest candidates first =
     fold (\<lambda>c latest. if modTime c > modTime latest then c else latest) candidates first"

text \<open>
  \<open>getAccessTokenFromSsoSessionWithPath\<close> on the listing \<open>os.ReadDir\<close> returned.
\<close>

definition newestToken :: "string \<Rightarrow> string \<Rightarrow> cache_file list \<Rightarrow> error + string \<times> string" where
  "newestToken dir target files =
     (let candidates = collectCandidates dir target files [] in
      case candidates of
        [] \<Rightarrow> Inl (NoTokenForStartUrl target)
      | first # _ \<Rightarrow>
          (let latest = pickLatest candidates first in Inr (token latest, path latest)))"

definition getAccessTokenFromSsoSessionWithPath ::
    "globals \<Rightarrow> world \<Rightarrow> error + string \<times> string" where
  "getAccessTokenFromSsoSessionWithPath g w =
     (case cache_dir w of
        None \<Rightarrow> Inl (IOError ''ReadDir'')
      | Some files \<Rightarrow> newestToken (ssoCacheDir w) (ssoStartURL g) files)"

section \<open>Device authorization\<close>

record client_registration =
  ClientId :: string
  ClientSecret :: string

record device_authorization =
  VerificationUriComplete :: string
  UserCode :: string
  DeviceCode :: string
  Interval :: int
  ExpiresIn :: int

record token_output =
  AccessToken :: "string option"
  TokenExpiresIn :: int

text \<open>
  The identity provider, as the calls of the SDK client answer, an error being given by its
  message: \<open>CreateToken n\<close> is the answer to the exchange attempt number \<open>n\<close>, counted
  from 0. A call takes no time; the clock advances in \<open>time.Sleep\<close> only.
\<close>

record sso_oidc =
  LoadDefaultConfig :: "string option"
  RegisterClient :: "string + client_registration"
  StartDeviceAuthorization :: "string + device_authorization"
  CreateToken :: "nat \<Rightarrow> string + token_output"

definition pollInterval :: "int \<Rightarrow> int" where
  "pollInterval devInterval = (if devInterval > 0 then devInterval else 5)"

definition pendingOrSlowDown :: "string \<Rightarrow> bool" where
  "pendingOrSlowDown es =
     (strings_Contains es ''authorization_pending'' \<or> strings_Contains es ''AuthorizationPending''
      \<or> strings_Contains es ''slow_down'' \<or> strings_Contains es ''SlowDown'')"

text \<open>
  The polling loop. The result is what the loop leaves: \<open>Inl err\<close> when it returns an
  error, \<open>Inr tokenOut\<close> when it ends, by \<open>break\<close> with the token or at the deadline with
  \<open>tokenOut\<close> still nil; then the clock, and the number of exchange attempts made so far.
\<close>

function pollForToken ::
    "(nat \<Rightarrow> string + token_output) \<Rightarrow> int \<Rightarrow> int \<Rightarrow> int \<Rightarrow> nat
      \<Rightarrow> (error + token_output option) \<times> int \<times> nat" where
  "pollForToken createToken devInterval deadline now n =
     (if now < deadline then
        (case createToken n of
           Inr tokenOut \<Rightarrow> (Inr (Some tokenOut), now, Suc n)
         | Inl es \<Rightarrow>
             if pendingOrSlowDown es
             then pollForToken createToken devInterval deadline
                    (now + pollInterval devInterval * second) (Suc n)
             else (Inl (SdkError es), now, Suc n))
      else (Inr None, now, n))"
  by pat_completeness auto
termination
proof (relation "measure (\<lambda>(createToken, devInterval, deadline, now, n). nat (deadline - now))")
  show "wf (measure (\<lambda>(createToken :: nat \<Rightarrow> string + token_output,
          devInterval :: int, deadline, now, n :: nat). nat (deadline - now)))"
    by simp
next
  fix createToken :: "nat \<Rightarrow> string + token_output"
    and devInterval deadline now :: int and n :: nat
  assume "now < deadline"
  moreover have "0 < pollInterval devInterval * second"
    by (simp add: pollInterval_def second_def)
  ultimately show
    "((createToken, devInterval, deadline, now + pollInterval devInterval * second, Suc n),
      createToken, devInterval, deadline, now, n)
     \<in> measure (\<lambda>(createToken, devInterval, deadline, now, n). nat (deadline - now))"
    by simp
qed

function decimalNat :: "nat \<Rightarrow> string" where
  "decimalNat n =
     (if n < 10 then [char_of (48 + n)] else decimalNat (n div 10) @ [char_of (48 + n mod 10)])"
  by pat_completeness auto
termination
  by (relation "measure id") auto

definition formatInt :: "int \<Rightarrow> string" where
  "formatInt i = (if i < 0 then ''-'' @ decimalNat (nat (- i)) else decimalNat (nat i))"

text \<open>
  The end of \<open>runAwsSsoLogin\<close>: the credential is written to a new file of the cache
  directory, named after the clock, through a temporary file that is renamed. The value of
  \<open>expiresAt\<close>, a string in RFC 3339 form that the program never reads back, is kept as
  the instant it denotes.
\<close>

definition writeTokenCache ::
    "io_faults \<Rightarrow> globals \<Rightarrow> string \<Rightarrow> int \<Rightarrow> world \<Rightarrow> error option \<times> world" where
  "writeTokenCache io g accessToken expiresIn w =
     (if fail_cache_MkdirAll io then (Some (IOError ''MkdirAll''), w)
      else
        (let files = (case cache_dir w of None \<Rightarrow> [] | Some existing \<Rightarrow> existing);
             made = w\<lparr>cache_dir := Some files\<rparr>;
             filename = ''sso_token_'' @ formatInt (clock w) @ ''.json'';
             m = [(''startUrl'', JString (trimRightSlash (ssoStartURL g))),
                  (''region'', JString (ssoRegion g)),
                  (''accessToken'', JString accessToken),
                  (''expiresAt'', JNumber (clock w + expiresIn * second))]
         in if fail_cache_WriteFile io then (Some (IOError ''WriteFile''), made)
            else if fail_cache_Rename io then (Some (IOError ''Rename''), made)
            else (None, made\<lparr>cache_dir :=
                    Some (filter (\<lambda>f. fileName f \<noteq> filename) files @
                      [\<lparr>fileName = filename, content = JsonObject m,
                        info = Some (clock w)\<rparr>])\<rparr>)))"

definition runAwsSsoLogin ::
    "sso_oidc \<Rightarrow> io_faults \<Rightarrow> globals \<Rightarrow> world \<Rightarrow> error option \<times> world" where
  "runAwsSsoLogin oidc io g w =
     (case LoadDefaultConfig oidc of
        Some es \<Rightarrow> (Some (SdkError es), w)
      | None \<Rightarrow>
          (case RegisterClient oidc of
             Inl es \<Rightarrow> (Some (SdkError es), w)
           | Inr regOut \<Rightarrow>
               (case StartDeviceAuthorization oidc of
                  Inl es \<Rightarrow> (Some (SdkError es), w)
                | Inr devOut \<Rightarrow>
                    (let deadline = clock w + ExpiresIn devOut * second in
                     case pollForToken (CreateToken oidc) (Interval devOut) deadline (clock w) 0 of
                       (Inl err, now, n) \<Rightarrow> (Some err, w\<lparr>clock := now\<rparr>)
                     | (Inr None, now, n) \<Rightarrow>
                         (Some NoAccessTokenFromDeviceAuthorization, w\<lparr>clock := now\<rparr>)
                     | (Inr (Some tokenOut), now, n) \<Rightarrow>
                         (case AccessToken tokenOut of
                            None \<Rightarrow> (Some NoAccessTokenFromDeviceAuthorization, w\<lparr>clock := now\<rparr>)
                          | Some accessToken \<Rightarrow>
                              writeTokenCache io g accessToken (TokenExpiresIn tokenOut)
                                (w\<lparr>clock := now\<rparr>))))))"

section \<open>Login: validation again after the device flow\<close>

text \<open>
  The hooks \<open>getAccessTokenFunc\<close> and \<open>isSsoTokenValidFunc\<close> are inputs, indexed by the
  attempt: \<open>get i\<close> is the triple the fetch of attempt \<open>i\<close> returns. The loop state is the
  three variables \<open>accessToken\<close>, \<open>tokenPath\<close> and \<open>lastErr\<close>.
\<close>

function retryLoop ::
    "(nat \<Rightarrow> string \<times> string \<times> error option) \<Rightarrow> (nat \<Rightarrow> string \<Rightarrow> bool) \<Rightarrow> nat
      \<Rightarrow> string \<times> string \<times> error option \<Rightarrow> string \<times> string \<times> error option" where
  "retryLoop get valid i (accessToken, tokenPath, lastErr) =
     (if i < 10 then
        (case get i of
           (accessToken', tokenPath', err) \<Rightarrow>
             if err = None \<and> valid i accessToken' then (accessToken', tokenPath', None)
             else retryLoop get valid (i + 1) (accessToken', tokenPath', err))
      else (accessToken, tokenPath, lastErr))"
  by pat_completeness auto
termination
  by (relation "measure (\<lambda>(get, valid, i, st). 10 - i)") auto

text \<open>
  Lines 861 to 874 of \<open>login\<close>: \<open>Inl\<close> is the error it returns, \<open>Inr\<close> the token and path
  it goes on with.
\<close>

definition revalidateAfterLogin ::
    "(nat \<Rightarrow> string \<times> string \<times> error option) \<Rightarrow> (nat \<Rightarrow> string \<Rightarrow> bool)
      \<Rightarrow> string \<times> string \<Rightarrow> error + string \<times> string" where
  "revalidateAfterLogin get valid before =
     (case retryLoop get valid 0 (fst before, snd before, None) of
        (accessToken, tokenPath, lastErr) \<Rightarrow>
          if lastErr \<noteq> None then Inl (LoginProducedNoValidToken lastErr)
          else Inr (accessToken, tokenPath))"

section \<open>A small INI reader and printer\<close>

text \<open>
  One instance of the library's interface, for running the program on concrete files:
  section headers in brackets, \<open>key = value\<close> lines, comments and blank lines.
\<close>

definition trimSpaces :: "string \<Rightarrow> string" where
  "trimSpaces s =
     rev (dropWhile (\<lambda>c. c = CHR '' '') (rev (dropWhile (\<lambda>c. c = CHR '' '') s)))"

fun splitLines :: "string \<Rightarrow> string list" where
  "splitLines [] = [[]]"
| "splitLines (c # cs) =
     (if c = CHR 0x0A then [] # splitLines cs
      else (case splitLines cs of [] \<Rightarrow> [[c]] | l # ls \<Rightarrow> (c # l) # ls))"

fun parseLines :: "string list \<Rightarrow> string option \<Rightarrow> ini_file \<Rightarrow> ini_file option" where
  "parseLines [] cur cfg = Some cfg"
| "parseLines (l # ls) cur cfg =
     (let t = trimSpaces l in
      if t = [] \<or> hd t = CHR ''#'' \<or> hd t = CHR '';'' then parseLines ls cur cfg
      else if hd t = CHR ''['' then
        (if last t = CHR '']'' then
           (let name = trimSpaces (butlast (tl t)) in
            parseLines ls (Some name)
              (if map_of cfg name = None then cfg @ [(name, [])] else cfg))
         else None)
      else if CHR ''='' \<in> set t then
        (case cur of
           None \<Rightarrow> None
         | Some name \<Rightarrow>
             (let k = trimSpaces (takeWhile (\<lambda>c. c \<noteq> CHR ''='') t);
                  v = trimSpaces (tl (dropWhile (\<lambda>c. c \<noteq> CHR ''='') t))
              in parseLines ls cur
                   (AList.update name (AList.update k v (file_Section cfg name)) cfg)))
      else None)"

definition renderSection :: "ini_section \<Rightarrow> string" where
  "renderSection sec =
     ''['' @ fst sec @ '']'' @ newline @
     concat (map (\<lambda>kv. fst kv @ '' = '' @ snd kv @ newline) (snd sec)) @ newline"

definition simple_ini :: ini_lib where
  "simple_ini = \<lparr>ini_parse = (\<lambda>text. parseLines (splitLines text) None []),
                 ini_render = (\<lambda>cfg. concat (map renderSection cfg))\<rparr>"

section \<open>The cache filter, stated on one file\<close>

text \<open>
  What the loop of \<open>getAccessTokenFromSsoSessionWithPath\<close> requires of a file to make it a
  candidate, and the candidate it makes of it.
\<close>

definition jsonFields :: "cache_file \<Rightarrow> (string \<times> json_value) list" where
  "jsonFields f = (case content f of JsonObject cache \<Rightarrow> cache | _ \<Rightarrow> [])"

definition isCandidate :: "string \<Rightarrow> cache_file \<Rightarrow> bool" where
  "isCandidate target f =
     (strings_HasSuffix (fileName f) ''.json''
      \<and> content f \<noteq> ReadError \<and> content f \<noteq> NotJson
      \<and> snd (assertString (map_of (jsonFields f) ''startUrl''))
      \<and> (fst (assertString (map_of (jsonFields f) ''startUrl'')) = target
           \<or> fst (assertString (map_of (jsonFields f) ''startUrl'')) = trimRightSlash target)
      \<and> snd (assertString (map_of (jsonFields f) ''accessToken''))
      \<and> info f \<noteq> None)"

definition toCandidate :: "string \<Rightarrow> cache_file \<Rightarrow> candidate" where
  "toCandidate dir f =
     \<lparr>path = dir @ ''/'' @ fileName f,
      startUrl = fst (assertString (map_of (jsonFields f) ''startUrl'')),
      token = fst (assertString (map_of (jsonFields f) ''accessToken'')),
      modTime = (case info f of None \<Rightarrow> 0 | Some t \<Rightarrow> t div second)\<rparr>"

definition candidatesOf :: "string \<Rightarrow> string \<Rightarrow> cache_file list \<Rightarrow> candidate list" where
  "candidatesOf dir target files = map (toCandidate dir) (filter (isCandidate target) files)"

section \<open>A matching session declaration, stated on one section\<close>

text \<open>
  A section declares a session for a start URL and a region when its name begins with
  \<open>sso-session\<close> and a space, its \<open>sso_start_url\<close> equals the start URL once the
  trailing slashes of both are removed, and its \<open>sso_region\<close> equals the region. The
  name of the session is what follows the first space of the section's name.
\<close>

definition sessionMatches :: "string \<Rightarrow> string \<Rightarrow> ini_section \<Rightarrow> bool" where
  "sessionMatches startURL region sec =
     (strings_HasPrefix (fst sec) ''sso-session ''
      \<and> trimRightSlash (key_String (snd sec) ''sso_start_url'') = trimRightSlash startURL
      \<and> key_String (snd sec) ''sso_region'' = region)"

definition sessionLabel :: "ini_section \<Rightarrow> string" where
  "sessionLabel sec = drop (length ''sso-session '') (fst sec)"

section \<open>The documents a run saves\<close>

text \<open>
  The documents that the loop of \<open>configureSsoProfiles\<close> hands to \<open>SaveTo\<close>, in order: one
  for each role whose profile does not exist when the loop reaches it.
\<close>

fun savedDocuments ::
    "ini_lib \<Rightarrow> io_faults \<Rightarrow> globals \<Rightarrow> CombinedRole list \<Rightarrow> world \<Rightarrow> ini_file list" where
  "savedDocuments lib io g [] w = []"
| "savedDocuments lib io g (role # roles) w =
     (let profileName = getProfileNameFromRole g role in
      if profileExists lib profileName w then savedDocuments lib io g roles w
      else profileDocument lib g profileName role w #
             savedDocuments lib io g roles
               (snd (writeProfileToConfig lib io g profileName role w)))"

section \<open>Concrete inputs\<close>

definition example_globals :: globals where
  "example_globals =
     \<lparr>ssoRoleNames = [''AWSReadOnlyAccess''], profilePrefix = [], useAutoPrefix = True,
      ssoStartURL = ''https://unit.test/start'', ssoSessionConfigName = ''default'',
      ssoRegion = ''us-east-1'', dryRun = False, openBrowser = False,
      profileOutput = ''json''\<rparr>"

definition example_role :: CombinedRole where
  "example_role =
     \<lparr>AccountId = ''123'', RoleName = ''AWSReadOnlyAccess'', AccountName = ''My App''\<rparr>"

definition cached_token :: "string \<Rightarrow> string \<Rightarrow> string \<Rightarrow> int \<Rightarrow> cache_file" where
  "cached_token name url accessToken t =
     \<lparr>fileName = name,
      content = JsonObject [(''startUrl'', JString url), (''accessToken'', JString accessToken)],
      info = Some t\<rparr>"

definition fetch_always_found :: "nat \<Rightarrow> string \<times> string \<times> error option" where
  "fetch_always_found i = (''fake-token'', ''/tmp/fake-token.json'', None)"

definition never_valid :: "nat \<Rightarrow> string \<Rightarrow> bool" where
  "never_valid i accessToken = False"

definition example_world :: world where
  "example_world =
     \<lparr>config_file = Some (''[profile old]'' @ newline @ ''sso_session = default'' @ newline),
      cache_dir = None, homeDir = ''/home/u'', clock = 0\<rparr>"

definition always_pending :: "nat \<Rightarrow> string + token_output" where
  "always_pending n = Inl ''AuthorizationPendingException: authorization_pending''"

definition example_device :: device_authorization where
  "example_device =
     \<lparr>VerificationUriComplete = ''https://device.unit.test/?user_code=ABCD'',
      UserCode = ''ABCD'', DeviceCode = ''dev-code'', Interval = 5, ExpiresIn = 12\<rparr>"

definition example_oidc :: "(nat \<Rightarrow> string + token_output) \<Rightarrow> sso_oidc" where
  "example_oidc answers =
     \<lparr>LoadDefaultConfig = None,
      RegisterClient = Inr \<lparr>ClientId = ''client'', ClientSecret = ''secret''\<rparr>,
      StartDeviceAuthorization = Inr example_device,
      CreateToken = answers\<rparr>"


definition broken_file :: cache_file where
  "broken_file =
     \<lparr>fileName = ''broken.json'', content = NotJson, info = Some (300 * second)\<rparr>"

definition older_token :: cache_file where
  "older_token = cached_token ''a.json'' ''https://unit.test/start'' ''token-a'' (100 * second)"

definition newer_token :: cache_file where
  "newer_token = cached_token ''b.json'' ''https://unit.test/start'' ''token-b'' (200 * second)"

definition session_text :: "string \<Rightarrow> string \<Rightarrow> string" where
  "session_text name url =
     ''[sso-session '' @ name @ '']'' @ newline @
     ''sso_start_url = '' @ url @ newline @
     ''sso_region = us-east-1'' @ newline"

definition world_with_config :: "string \<Rightarrow> world" where
  "world_with_config text =
     \<lparr>config_file = Some text, cache_dir = None, homeDir = ''/home/u'', clock = 0\<rparr>"


definition two_sessions :: string where
  "two_sessions =
     session_text ''corp'' ''https://unit.test/start/'' @ newline @
     session_text ''other'' ''https://unit.test/start''"

definition default_and_other :: string where
  "default_and_other =
     session_text ''default'' ''https://unit.test/start'' @ newline @
     session_text ''other'' ''https://unit.test/start''"

definition second_role :: CombinedRole where
  "second_role =
     \<lparr>AccountId = ''456'', RoleName = ''AWSPowerUserAccess'', AccountName = ''Dev_Team''\<rparr>"

definition synced_config :: string where
  "synced_config =
     ''[profile old]'' @ newline @
     ''sso_session = default'' @ newline @ newline @
     ''[profile ReadOnly_My-App_123]'' @ newline @
     ''sso_session = default'' @ newline @
     ''sso_account_id = 123'' @ newline @
     ''sso_role_name = AWSReadOnlyAccess'' @ newline @
     ''region = us-east-1'' @ newline @
     ''output = json'' @ newline @ newline @
     ''[profile PowerUser_Dev-Team_456]'' @ newline @
     ''sso_session = default'' @ newline @
     ''sso_account_id = 456'' @ newline @
     ''sso_role_name = AWSPowerUserAccess'' @ newline @
     ''region = us-east-1'' @ newline @
     ''output = json'' @ newline @ newline"

definition granted :: "nat \<Rightarrow> string + token_output" where
  "granted n = Inr \<lparr>AccessToken = Some ''fresh-token'', TokenExpiresIn = 28800\<rparr>"

definition dry_run_globals :: globals where
  "dry_run_globals = example_globals\<lparr>dryRun := True\<rparr>"

definition login_world :: world where
  "login_world =
     \<lparr>config_file = None, cache_dir = None, homeDir = ''/home/u'', clock = 42\<rparr>"

definition written_token :: cache_file where
  "written_token =
     \<lparr>fileName = ''sso_token_42.json'',
      content = JsonObject
        [(''startUrl'', JString ''https://unit.test/start''),
         (''region'', JString ''us-east-1''),
         (''accessToken'', JString ''fresh-token''),
         (''expiresAt'', JNumber 28800000000042)],
      info = Some 42\<rparr>"



section \<open>Properties\<close>

subsection \<open>Strings\<close>

lemma strings_HasPrefix_iff: "strings_HasPrefix s p = (\<exists>q. s = p @ q)"
proof
  assume "strings_HasPrefix s p"
  then have "s = p @ drop (length p) s"
    unfolding strings_HasPrefix_def by (metis append_take_drop_id)
  then show "\<exists>q. s = p @ q" ..
next
  assume "\<exists>q. s = p @ q"
  then show "strings_HasPrefix s p"
    by (auto simp: strings_HasPrefix_def)
qed


lemma strings_HasSuffix_iff: "strings_HasSuffix s p = (\<exists>q. s = q @ p)"
proof
  assume "strings_HasSuffix s p"
  then have "s = take (length s - length p) s @ p"
    unfolding strings_HasSuffix_def by (metis append_take_drop_id)
  then show "\<exists>q. s = q @ p" ..
next
  assume "\<exists>q. s = q @ p"
  then show "strings_HasSuffix s p"
    by (auto simp: strings_HasSuffix_def)
qed

subsection \<open>Profile naming\<close>

lemma TrimPrefix_append: "strings_TrimPrefix (p @ r) p = r"
  by (simp add: strings_TrimPrefix_def strings_HasPrefix_def)

lemma TrimPrefix_none: "(\<nexists>q. s = p @ q) \<Longrightarrow> strings_TrimPrefix s p = s"
  by (simp add: strings_TrimPrefix_def strings_HasPrefix_iff)

lemma TrimSuffix_append: "strings_TrimSuffix (r @ p) p = r"
  by (simp add: strings_TrimSuffix_def strings_HasSuffix_def)

lemma TrimSuffix_none: "(\<nexists>q. s = q @ p) \<Longrightarrow> strings_TrimSuffix s p = s"
  by (simp add: strings_TrimSuffix_def strings_HasSuffix_iff)

lemma generatePrefix_both:
  "generatePrefixFromRole (''AWS'' @ r @ ''Access'') = (if r = [] then [] else r @ ''_'')"
  unfolding generatePrefixFromRole_def Let_def TrimPrefix_append TrimSuffix_append by simp

lemma generatePrefix_AWS_only:
  assumes "\<nexists>q. r = q @ ''Access''"
  shows "generatePrefixFromRole (''AWS'' @ r) = (if r = [] then [] else r @ ''_'')"
  unfolding generatePrefixFromRole_def Let_def TrimPrefix_append TrimSuffix_none[OF assms]
  by simp

lemma generatePrefix_Access_only:
  assumes "\<nexists>q. r @ ''Access'' = ''AWS'' @ q"
  shows "generatePrefixFromRole (r @ ''Access'') = (if r = [] then [] else r @ ''_'')"
  unfolding generatePrefixFromRole_def Let_def TrimPrefix_none[OF assms] TrimSuffix_append
  by simp

lemma generatePrefix_neither:
  assumes "\<nexists>q. r = ''AWS'' @ q" and "\<nexists>q. r = q @ ''Access''"
  shows "generatePrefixFromRole r = (if r = [] then [] else r @ ''_'')"
  unfolding generatePrefixFromRole_def Let_def TrimPrefix_none[OF assms(1)]
    TrimSuffix_none[OF assms(2)]
  by simp

lemma generatePrefix_ReadOnly: "generatePrefixFromRole ''AWSReadOnlyAccess'' = ''ReadOnly_''"
  using generatePrefix_both[of "''ReadOnly''"] by simp

lemma generatePrefix_Access: "generatePrefixFromRole ''Access'' = []"
  by (simp add: generatePrefixFromRole_def strings_TrimPrefix_def strings_TrimSuffix_def
      strings_HasPrefix_def strings_HasSuffix_def)

lemma sanitize_My_App: "replaceSeparatorRuns ''My App'' = ''My-App''"
  by (simp add: is_sep_def)

lemma is_sep_iff:
  "is_sep c = (c \<in> {CHR ''_'', CHR '' '', CHR 0x09, CHR 0x0A, CHR 0x0C, CHR 0x0D})"
  by (auto simp: is_sep_def)

lemma replace_run:
  assumes "run \<noteq> []" and "\<forall>c \<in> set run. is_sep c" and "rest = [] \<or> \<not> is_sep (hd rest)"
  shows "replaceSeparatorRuns (run @ rest) = CHR ''-'' # replaceSeparatorRuns rest"
proof -
  obtain c cs where run: "run = c # cs"
    using assms(1) by (cases run) auto
  have "dropWhile is_sep (cs @ rest) = dropWhile is_sep rest"
    using assms(2) run by (simp add: dropWhile_append2)
  also have "\<dots> = rest"
    using assms(3) by (cases rest) auto
  finally show ?thesis
    using assms(2) run by simp
qed

text \<open>
  C5. The derived prefix is the role name without a leading \<open>AWS\<close> and, after that, without
  a trailing \<open>Access\<close>, followed by an underscore, and is empty when nothing is left; so
  \<open>AWSReadOnlyAccess\<close> gives \<open>ReadOnly_\<close> and \<open>Access\<close> gives none. In the account name
  every maximal run of underscores and white space becomes one hyphen and every other
  character is kept; so \<open>My App\<close> becomes \<open>My-App\<close>. An explicit prefix wins over the derived
  one whatever the role and the auto-prefix switch are; and the name is the prefix, the
  sanitized account name, an underscore and the account id, the prefix being left out when
  it is empty.
\<close>

theorem profile_naming:
  "generatePrefixFromRole ''AWSReadOnlyAccess'' = ''ReadOnly_''
   \<and> generatePrefixFromRole ''Access'' = []
   \<and> replaceSeparatorRuns ''My App'' = ''My-App''
   \<and> generatePrefixFromRole (''AWS'' @ r @ ''Access'') = (if r = [] then [] else r @ ''_'')
   \<and> ((\<nexists>q. r = q @ ''Access'') \<longrightarrow>
        generatePrefixFromRole (''AWS'' @ r) = (if r = [] then [] else r @ ''_''))
   \<and> ((\<nexists>q. r @ ''Access'' = ''AWS'' @ q) \<longrightarrow>
        generatePrefixFromRole (r @ ''Access'') = (if r = [] then [] else r @ ''_''))
   \<and> ((\<nexists>q. r = ''AWS'' @ q) \<and> (\<nexists>q. r = q @ ''Access'') \<longrightarrow>
        generatePrefixFromRole r = (if r = [] then [] else r @ ''_''))
   \<and> is_sep c = (c \<in> {CHR ''_'', CHR '' '', CHR 0x09, CHR 0x0A, CHR 0x0C, CHR 0x0D})
   \<and> replaceSeparatorRuns [] = []
   \<and> (\<not> is_sep c \<longrightarrow> replaceSeparatorRuns (c # s) = c # replaceSeparatorRuns s)
   \<and> (run \<noteq> [] \<and> (\<forall>x \<in> set run. is_sep x) \<and> (rest = [] \<or> \<not> is_sep (hd rest)) \<longrightarrow>
        replaceSeparatorRuns (run @ rest) = CHR ''-'' # replaceSeparatorRuns rest)
   \<and> (profilePrefix g \<noteq> [] \<longrightarrow>
        getProfileNameFromRole g role =
          profilePrefix g @ replaceSeparatorRuns (AccountName role) @ ''_'' @ AccountId role)
   \<and> (profilePrefix g = [] \<and> useAutoPrefix g \<and> generatePrefixFromRole (RoleName role) \<noteq> []
        \<longrightarrow> getProfileNameFromRole g role =
          generatePrefixFromRole (RoleName role) @ replaceSeparatorRuns (AccountName role)
            @ ''_'' @ AccountId role)
   \<and> (profilePrefix g = [] \<and> (useAutoPrefix g \<longrightarrow> generatePrefixFromRole (RoleName role) = [])
        \<longrightarrow> getProfileNameFromRole g role =
          replaceSeparatorRuns (AccountName role) @ ''_'' @ AccountId role)"
proof (intro conjI)
  show "generatePrefixFromRole ''AWSReadOnlyAccess'' = ''ReadOnly_''"
    by (rule generatePrefix_ReadOnly)
  show "generatePrefixFromRole ''Access'' = []"
    by (rule generatePrefix_Access)
  show "replaceSeparatorRuns ''My App'' = ''My-App''"
    by (rule sanitize_My_App)
  show "generatePrefixFromRole (''AWS'' @ r @ ''Access'') = (if r = [] then [] else r @ ''_'')"
    by (rule generatePrefix_both)
  show "(\<nexists>q. r = q @ ''Access'') \<longrightarrow>
        generatePrefixFromRole (''AWS'' @ r) = (if r = [] then [] else r @ ''_'')"
    using generatePrefix_AWS_only[of r] by blast
  show "(\<nexists>q. r @ ''Access'' = ''AWS'' @ q) \<longrightarrow>
        generatePrefixFromRole (r @ ''Access'') = (if r = [] then [] else r @ ''_'')"
    using generatePrefix_Access_only[of r] by blast
  show "(\<nexists>q. r = ''AWS'' @ q) \<and> (\<nexists>q. r = q @ ''Access'') \<longrightarrow>
        generatePrefixFromRole r = (if r = [] then [] else r @ ''_'')"
    using generatePrefix_neither[of r] by blast
  show "is_sep c = (c \<in> {CHR ''_'', CHR '' '', CHR 0x09, CHR 0x0A, CHR 0x0C, CHR 0x0D})"
    by (rule is_sep_iff)
  show "replaceSeparatorRuns [] = []"
    by simp
  show "\<not> is_sep c \<longrightarrow> replaceSeparatorRuns (c # s) = c # replaceSeparatorRuns s"
    by simp
  show "run \<noteq> [] \<and> (\<forall>x \<in> set run. is_sep x) \<and> (rest = [] \<or> \<not> is_sep (hd rest)) \<longrightarrow>
        replaceSeparatorRuns (run @ rest) = CHR ''-'' # replaceSeparatorRuns rest"
    using replace_run[of run rest] by blast
  show "profilePrefix g \<noteq> [] \<longrightarrow>
        getProfileNameFromRole g role =
          profilePrefix g @ replaceSeparatorRuns (AccountName role) @ ''_'' @ AccountId role"
    by (simp add: getProfileNameFromRole_def)
  show "profilePrefix g = [] \<and> useAutoPrefix g \<and> generatePrefixFromRole (RoleName role) \<noteq> []
        \<longrightarrow> getProfileNameFromRole g role =
          generatePrefixFromRole (RoleName role) @ replaceSeparatorRuns (AccountName role)
            @ ''_'' @ AccountId role"
    by (simp add: getProfileNameFromRole_def)
  show "profilePrefix g = [] \<and> (useAutoPrefix g \<longrightarrow> generatePrefixFromRole (RoleName role) = [])
        \<longrightarrow> getProfileNameFromRole g role =
          replaceSeparatorRuns (AccountName role) @ ''_'' @ AccountId role"
    by (simp add: getProfileNameFromRole_def)
qed

theorem profile_naming_witness:
  "getProfileNameFromRole example_globals example_role = ''ReadOnly_My-App_123''
   \<and> getProfileNameFromRole (example_globals\<lparr>profilePrefix := ''team_''\<rparr>) example_role
       = ''team_My-App_123''
   \<and> getProfileNameFromRole example_globals (example_role\<lparr>RoleName := ''Access''\<rparr>)
       = ''My-App_123''
   \<and> getProfileNameFromRole (example_globals\<lparr>useAutoPrefix := False\<rparr>) example_role
       = ''My-App_123''
   \<and> generatePrefixFromRole ''AWSPowerUserAccess'' = ''PowerUser_''
   \<and> generatePrefixFromRole ''AWSAuditor'' = ''Auditor_''
   \<and> generatePrefixFromRole ''BillingAccess'' = ''Billing_''
   \<and> generatePrefixFromRole ''CustomRole'' = ''CustomRole_''
   \<and> replaceSeparatorRuns ''_ Team'' = ''-Team''
   \<and> replaceSeparatorRuns ''Team'' = ''Team''"
proof -
  have no_suffix: "\<nexists>q. ''Auditor'' = q @ ''Access''" "\<nexists>q. ''CustomRole'' = q @ ''Access''"
    unfolding strings_HasSuffix_iff[symmetric] by (simp_all add: strings_HasSuffix_def)
  have no_prefix: "\<nexists>q. ''Billing'' @ ''Access'' = ''AWS'' @ q" "\<nexists>q. ''CustomRole'' = ''AWS'' @ q"
    by simp_all
  have seps: "''_ '' \<noteq> []" "\<forall>x \<in> set ''_ ''. is_sep x"
      "''Team'' = [] \<or> \<not> is_sep (hd ''Team'')"
      "\<not> is_sep CHR ''T''" "\<not> is_sep CHR ''e''" "\<not> is_sep CHR ''a''" "\<not> is_sep CHR ''m''"
    by (simp_all add: is_sep_def)
  note names =
    profile_naming [of "''PowerUser''" _ _ _ _ example_globals example_role]
    profile_naming [of _ _ _ _ _ "example_globals\<lparr>profilePrefix := ''team_''\<rparr>" example_role]
    profile_naming [of _ _ _ _ _ example_globals "example_role\<lparr>RoleName := ''Access''\<rparr>"]
    profile_naming [of _ _ _ _ _ "example_globals\<lparr>useAutoPrefix := False\<rparr>" example_role]
  have c1: "getProfileNameFromRole example_globals example_role = ''ReadOnly_My-App_123''
      \<and> getProfileNameFromRole (example_globals\<lparr>profilePrefix := ''team_''\<rparr>) example_role
          = ''team_My-App_123''
      \<and> getProfileNameFromRole example_globals (example_role\<lparr>RoleName := ''Access''\<rparr>)
          = ''My-App_123''
      \<and> getProfileNameFromRole (example_globals\<lparr>useAutoPrefix := False\<rparr>) example_role
          = ''My-App_123''"
    using names by (simp add: example_globals_def example_role_def)
  have c2: "generatePrefixFromRole ''AWSPowerUserAccess'' = ''PowerUser_''"
    using profile_naming [of "''PowerUser''"] by simp
  have c3: "generatePrefixFromRole ''AWSAuditor'' = ''Auditor_''"
    using profile_naming [of "''Auditor''"] no_suffix by simp
  have c4: "generatePrefixFromRole ''BillingAccess'' = ''Billing_''"
    using profile_naming [of "''Billing''"] no_prefix by simp
  have c5: "generatePrefixFromRole ''CustomRole'' = ''CustomRole_''"
    using profile_naming [of "''CustomRole''"] no_prefix no_suffix by simp
  have t1: "replaceSeparatorRuns ''m'' = ''m''"
    using profile_naming [of _ "CHR ''m''" "[]"] seps by simp
  have t2: "replaceSeparatorRuns ''am'' = ''am''"
    using profile_naming [of _ "CHR ''a''" "''m''"] seps t1 by simp
  have t3: "replaceSeparatorRuns ''eam'' = ''eam''"
    using profile_naming [of _ "CHR ''e''" "''am''"] seps t2 by simp
  have c7: "replaceSeparatorRuns ''Team'' = ''Team''"
    using profile_naming [of _ "CHR ''T''" "''eam''"] seps t3 by simp
  have c6: "replaceSeparatorRuns ''_ Team'' = ''-Team''"
    using profile_naming [of _ _ _ "''_ ''" "''Team''"] seps c7 by simp
  show ?thesis using c1 c2 c3 c4 c5 c6 c7 by blast
qed

subsection \<open>The token cache: which stored URL matches\<close>

lemma single_file_matches:
  "strings_HasSuffix name ''.json'' \<Longrightarrow>
   newestToken dir target [cached_token name url accessToken t] =
     (if url = target \<or> url = trimRightSlash target
      then Inr (accessToken, dir @ ''/'' @ name)
      else Inl (NoTokenForStartUrl target))"
  by (simp add: newestToken_def cached_token_def pickLatest_def)

text \<open>
  C7. The filter of the cache compares the stored URL with the target and with the target
  stripped of its trailing slashes; the stored URL itself is never stripped. A stored
  \<open>https://unit.test/start/\<close> is not found for the target \<open>https://unit.test/start\<close>, while
  a stored \<open>https://unit.test/start\<close> is found for the target \<open>https://unit.test/start/\<close>.
\<close>

theorem stored_trailing_slash_not_matched:
  "newestToken ''/home/u/.aws/sso/cache'' ''https://unit.test/start''
     [cached_token ''a.json'' ''https://unit.test/start/'' ''tok'' 100]
     = Inl (NoTokenForStartUrl ''https://unit.test/start'')
   \<and> newestToken ''/home/u/.aws/sso/cache'' ''https://unit.test/start/''
     [cached_token ''a.json'' ''https://unit.test/start'' ''tok'' 100]
     = Inr (''tok'', ''/home/u/.aws/sso/cache/a.json'')"
  by code_simp

subsection \<open>Login: validation again after the device flow\<close>

lemma retryLoop_rejected:
  assumes "\<And>j. i \<le> j \<Longrightarrow> j < 10 \<Longrightarrow> \<not> (snd (snd (get j)) = None \<and> valid j (fst (get j)))"
    and "i < 10"
  shows "retryLoop get valid i st = get 9"
  using assms
proof (induction get valid i st rule: retryLoop.induct)
  case (1 get valid i accessToken tokenPath lastErr)
  obtain a p e where g: "get i = (a, p, e)" by (cases "get i")
  have nv: "\<not> (e = None \<and> valid i a)" using "1.prems"(1)[of i] "1.prems"(2) g by simp
  show ?case
  proof (cases "i = 9")
    case True
    have stop: "retryLoop get valid 10 (a, p, e) = (a, p, e)"
      by (subst retryLoop.simps) simp
    show ?thesis
      using True g nv stop by (subst retryLoop.simps) (auto simp del: retryLoop.simps)
  next
    case False
    then have lt: "i + 1 < 10" using "1.prems"(2) by simp
    have "retryLoop get valid (i + 1) (a, p, e) = get 9"
      using "1.IH"[OF "1.prems"(2) g[symmetric] refl nv] "1.prems"(1) lt by simp
    then show ?thesis
      using g nv "1.prems"(2) by (subst retryLoop.simps) (auto simp del: retryLoop.simps)
  qed
qed

text \<open>
  When no attempt passes validation, the error of the tenth fetch alone decides: login
  fails when that fetch failed and goes on with its token when it succeeded.
\<close>

lemma revalidate_all_rejected:
  assumes "\<And>j. j < 10 \<Longrightarrow> \<not> (snd (snd (get j)) = None \<and> valid j (fst (get j)))"
  shows "revalidateAfterLogin get valid before =
     (case get 9 of
        (accessToken, tokenPath, None) \<Rightarrow> Inr (accessToken, tokenPath)
      | (accessToken, tokenPath, Some e) \<Rightarrow> Inl (LoginProducedNoValidToken (Some e)))"
proof -
  have "retryLoop get valid 0 (fst before, snd before, None) = get 9"
    using assms by (intro retryLoop_rejected) simp_all
  then show ?thesis
    by (auto simp: revalidateAfterLogin_def split: prod.splits option.splits)
qed

text \<open>
  C8. A token is fetched on each of the ten attempts and validation rejects it every time:
  \<open>lastErr\<close> is nil after the loop, and login goes on with the rejected token instead of
  returning the error.
\<close>

theorem revalidation_accepts_rejected_token:
  "revalidateAfterLogin fetch_always_found never_valid ([], [])
     = Inr (''fake-token'', ''/tmp/fake-token.json'')"
  by code_simp

subsection \<open>Writing a profile is not atomic\<close>

text \<open>
  C10. Outside a dry run, once the directory exists and the file has been touched, the
  configuration file is empty before the document is saved: it holds the printed document
  when the save succeeds, and stays empty, with the error returned, when the save fails.
\<close>

theorem write_profile_truncates_before_save:
  assumes "\<not> dryRun g" and "\<not> fail_MkdirAll io" and "\<not> fail_WriteFile io"
  shows "writeProfileToConfig lib io g profileName role w =
     (if fail_SaveTo io
      then (Some (IOError ''SaveTo''), w\<lparr>config_file := Some []\<rparr>)
      else (None, w\<lparr>config_file :=
              Some (ini_render lib (profileDocument lib g profileName role w))\<rparr>))"
  using assms by (simp add: writeProfileToConfig_def Let_def)

theorem write_profile_truncates_before_save_witness:
  "config_file example_world
     = Some (''[profile old]'' @ newline @ ''sso_session = default'' @ newline)
   \<and> writeProfileToConfig simple_ini (no_faults\<lparr>fail_SaveTo := True\<rparr>) example_globals
       ''ReadOnly_My-App_123'' example_role example_world
     = (Some (IOError ''SaveTo''), example_world\<lparr>config_file := Some []\<rparr>)"
  using write_profile_truncates_before_save
    [of example_globals "no_faults\<lparr>fail_SaveTo := True\<rparr>" simple_ini
      "''ReadOnly_My-App_123''" example_role example_world]
  by (simp add: example_globals_def no_faults_def example_world_def)

subsection \<open>The polling loop of the device authorization\<close>


lemma pollInterval_pos: "0 < pollInterval devInterval * second"
  by (simp add: pollInterval_def second_def)











lemma poll_example: "pollForToken always_pending 5 (12 * second) 0 0 = (Inr None, 15 * second, 3)"
  by code_simp



subsection \<open>The token cache: the newest candidate\<close>

lemma collectCandidates_eq:
  "collectCandidates dir target files acc = acc @ candidatesOf dir target files"
proof (induction files arbitrary: acc)
  case Nil
  then show ?case by (simp add: candidatesOf_def)
next
  case (Cons f files)
  obtain u ok where u: "assertString (map_of (jsonFields f) ''startUrl'') = (u, ok)"
    by (cases "assertString (map_of (jsonFields f) ''startUrl'')")
  obtain a tokenOk where a: "assertString (map_of (jsonFields f) ''accessToken'') = (a, tokenOk)"
    by (cases "assertString (map_of (jsonFields f) ''accessToken'')")
  show ?case
  proof (cases "content f")
    case ReadError
    then show ?thesis using Cons.IH by (simp add: candidatesOf_def isCandidate_def)
  next
    case NotJson
    then show ?thesis using Cons.IH by (simp add: candidatesOf_def isCandidate_def)
  next
    case (JsonObject cache)
    then have j: "jsonFields f = cache" by (simp add: jsonFields_def)
    show ?thesis
      using Cons.IH JsonObject u a
      by (cases "info f") (auto simp: candidatesOf_def isCandidate_def toCandidate_def j)
  qed
qed

lemma pickLatest_in: "pickLatest cs first \<in> set (first # cs)"
  unfolding pickLatest_def
  by (induction cs arbitrary: first) (auto split: if_splits)

lemma pickLatest_ge_first: "modTime first \<le> modTime (pickLatest cs first)"
  unfolding pickLatest_def
proof (induction cs arbitrary: first)
  case Nil
  then show ?case by simp
next
  case (Cons c cs)
  show ?case
    using Cons.IH[of c] Cons.IH[of first] by (auto split: if_splits)
qed

lemma pickLatest_max: "c \<in> set cs \<Longrightarrow> modTime c \<le> modTime (pickLatest cs first)"
  unfolding pickLatest_def
proof (induction cs arbitrary: first)
  case Nil
  then show ?case by simp
next
  case (Cons x cs)
  show ?case
  proof (cases "c = x")
    case True
    have "modTime x \<le> modTime (fold (\<lambda>c latest. if modTime latest < modTime c then c else latest) cs
        (if modTime first < modTime x then x else first))"
      using pickLatest_ge_first[of "if modTime first < modTime x then x else first" cs]
      unfolding pickLatest_def by (auto split: if_splits)
    then show ?thesis using True by simp
  next
    case False
    then show ?thesis using Cons by auto
  qed
qed


lemma newestToken_candidatesOf:
  "newestToken dir target files =
     (case candidatesOf dir target files of
        [] \<Rightarrow> Inl (NoTokenForStartUrl target)
      | first # rest \<Rightarrow>
          Inr (token (pickLatest (first # rest) first), path (pickLatest (first # rest) first)))"
  using collectCandidates_eq[of dir target files "[]"]
  by (simp add: newestToken_def Let_def split: list.splits)

lemma newestToken_latest:
  assumes "candidatesOf dir target files \<noteq> []"
  shows "\<exists>c \<in> set (candidatesOf dir target files).
           newestToken dir target files = Inr (token c, path c)
           \<and> (\<forall>c' \<in> set (candidatesOf dir target files). modTime c' \<le> modTime c)"
proof -
  obtain first rest where fr: "candidatesOf dir target files = first # rest"
    using assms by (cases "candidatesOf dir target files") auto
  let ?c = "pickLatest (first # rest) first"
  have "?c \<in> set (first # rest)"
    using pickLatest_in[of "first # rest" first] by auto
  moreover have "newestToken dir target files = Inr (token ?c, path ?c)"
    using fr by (simp add: newestToken_candidatesOf)
  moreover have "\<forall>c' \<in> set (first # rest). modTime c' \<le> modTime ?c"
    using pickLatest_max[of _ "first # rest" first] by blast
  ultimately show ?thesis
    unfolding fr by blast
qed

lemma newestToken_order_independent:
  assumes "mset files' = mset files"
    and "distinct (map modTime (candidatesOf dir target files))"
  shows "newestToken dir target files' = newestToken dir target files"
proof -
  have sets: "set (candidatesOf dir target files') = set (candidatesOf dir target files)"
    using mset_eq_setD[OF assms(1)] by (simp add: candidatesOf_def)
  show ?thesis
  proof (cases "candidatesOf dir target files = []")
    case True
    then have "candidatesOf dir target files' = []"
      using sets by simp
    with True show ?thesis by (simp add: newestToken_candidatesOf)
  next
    case False
    then have ne': "candidatesOf dir target files' \<noteq> []"
      using sets by auto
    obtain c where c: "c \<in> set (candidatesOf dir target files)"
      "newestToken dir target files = Inr (token c, path c)"
      "\<forall>x \<in> set (candidatesOf dir target files). modTime x \<le> modTime c"
      using newestToken_latest[OF False] by blast
    obtain c' where c': "c' \<in> set (candidatesOf dir target files')"
      "newestToken dir target files' = Inr (token c', path c')"
      "\<forall>x \<in> set (candidatesOf dir target files'). modTime x \<le> modTime c'"
      using newestToken_latest[OF ne'] by blast
    have "modTime c = modTime c'"
      using c c' sets by (simp add: order_antisym)
    moreover have "inj_on modTime (set (candidatesOf dir target files))"
      using assms(2) by (simp add: distinct_map)
    ultimately have "c = c'"
      using c(1) c'(1) sets by (auto dest: inj_onD)
    then show ?thesis using c(2) c'(2) by simp
  qed
qed

lemma newestToken_skips_unreadable:
  assumes "content f = ReadError \<or> content f = NotJson"
  shows "newestToken dir target (xs @ f # ys) = newestToken dir target (xs @ ys)"
proof -
  have "\<not> isCandidate target f"
    using assms by (auto simp: isCandidate_def)
  then have "candidatesOf dir target (xs @ f # ys) = candidatesOf dir target (xs @ ys)"
    by (simp add: candidatesOf_def)
  then show ?thesis by (simp add: newestToken_candidatesOf)
qed

text \<open>
  What the selection does on every listing, the modification time of a candidate being the
  one the program keeps, in whole seconds. When no file is a candidate, the result is the
  not-found error. Otherwise the result is the token and path of a candidate whose kept time
  is the greatest. When the kept times of the candidates are pairwise distinct, the result is
  the same for every order of the listing. A file that cannot be read or unmarshalled is
  skipped: the result is the one for the listing without it.
\<close>

lemma freshest_token:
  "(candidatesOf dir target files = [] \<longrightarrow>
      newestToken dir target files = Inl (NoTokenForStartUrl target))
   \<and> (candidatesOf dir target files \<noteq> [] \<longrightarrow>
      (\<exists>c \<in> set (candidatesOf dir target files).
         newestToken dir target files = Inr (token c, path c)
         \<and> (\<forall>c' \<in> set (candidatesOf dir target files). modTime c' \<le> modTime c)))
   \<and> (mset files' = mset files \<and> distinct (map modTime (candidatesOf dir target files)) \<longrightarrow>
      newestToken dir target files' = newestToken dir target files)
   \<and> (content f = ReadError \<or> content f = NotJson \<longrightarrow>
      newestToken dir target (xs @ f # ys) = newestToken dir target (xs @ ys))"
  using newestToken_latest[of dir target files]
    newestToken_order_independent[of files' files dir target]
    newestToken_skips_unreadable[of f dir target xs ys]
  by (simp add: newestToken_candidatesOf)

lemma freshest_token_example:
  "newestToken ''/c'' ''https://unit.test/start/'' [newer_token, older_token, broken_file]
     = newestToken ''/c'' ''https://unit.test/start/'' [older_token, broken_file, newer_token]
   \<and> newestToken ''/c'' ''https://unit.test/start/'' ([older_token] @ broken_file # [newer_token])
     = newestToken ''/c'' ''https://unit.test/start/'' ([older_token] @ [newer_token])
   \<and> newestToken ''/c'' ''https://unit.test/start/'' [older_token, broken_file, newer_token]
     = Inr (''token-b'', ''/c/b.json'')
   \<and> newestToken ''/c'' ''https://unit.test/start/'' [broken_file]
     = Inl (NoTokenForStartUrl ''https://unit.test/start/'')"
proof -
  have perm: "mset [newer_token, older_token, broken_file]
      = mset [older_token, broken_file, newer_token]"
    by simp
  have cands: "candidatesOf ''/c'' ''https://unit.test/start/''
      [older_token, broken_file, newer_token]
      = [\<lparr>path = ''/c/a.json'', startUrl = ''https://unit.test/start'', token = ''token-a'',
           modTime = 100\<rparr>,
         \<lparr>path = ''/c/b.json'', startUrl = ''https://unit.test/start'', token = ''token-b'',
           modTime = 200\<rparr>]"
    by code_simp
  have none: "candidatesOf ''/c'' ''https://unit.test/start/'' [broken_file] = []"
    by code_simp
  have broken: "content broken_file = NotJson"
    by (simp add: broken_file_def)
  note main = freshest_token
    [where dir = "''/c''" and target = "''https://unit.test/start/''"
       and files = "[older_token, broken_file, newer_token]"
       and files' = "[newer_token, older_token, broken_file]"
       and f = broken_file and xs = "[older_token]" and ys = "[newer_token]"]
  note empty = freshest_token
    [where dir = "''/c''" and target = "''https://unit.test/start/''"
       and files = "[broken_file]"]
  have c1: "newestToken ''/c'' ''https://unit.test/start/'' [newer_token, older_token, broken_file]
     = newestToken ''/c'' ''https://unit.test/start/'' [older_token, broken_file, newer_token]"
    using main perm cands by simp
  have c2: "newestToken ''/c'' ''https://unit.test/start/''
       ([older_token] @ broken_file # [newer_token])
     = newestToken ''/c'' ''https://unit.test/start/'' ([older_token] @ [newer_token])"
    using main broken by simp
  have c3: "newestToken ''/c'' ''https://unit.test/start/'' [older_token, broken_file, newer_token]
     = Inr (''token-b'', ''/c/b.json'')"
    using main cands by auto
  have c4: "newestToken ''/c'' ''https://unit.test/start/'' [broken_file]
     = Inl (NoTokenForStartUrl ''https://unit.test/start/'')"
    using empty none by simp
  show ?thesis using c1 c2 c3 c4 by blast
qed

lemma same_second_first_wins:
  assumes "strings_HasSuffix n1 ''.json''" and "strings_HasSuffix n2 ''.json''"
    and "t1 div second = t2 div second"
  shows "newestToken dir url [cached_token n1 url tok1 t1, cached_token n2 url tok2 t2]
     = Inr (tok1, dir @ ''/'' @ n1)"
  using assms by (simp add: newestToken_def cached_token_def pickLatest_def)

text \<open>
  C6. Two files of the cache for the same start URL, listed in the order of their names:
  \<open>a.json\<close> was modified 100.2 seconds after the epoch and \<open>b.json\<close> 100.7 seconds
  after it. \<open>ModTime().Unix()\<close> keeps 100 for both, the comparison is strict, and the
  result is the token of \<open>a.json\<close>, which is not the entry modified last.
\<close>

theorem same_second_returns_older:
  "newestToken ''/home/u/.aws/sso/cache'' ''https://unit.test/start''
     [cached_token ''a.json'' ''https://unit.test/start'' ''older-token'' 100200000000,
      cached_token ''b.json'' ''https://unit.test/start'' ''newer-token'' 100700000000]
     = Inr (''older-token'', ''/home/u/.aws/sso/cache/a.json'')"
  by code_simp

subsection \<open>Session reconciliation\<close>

lemma splitN2_space_session:
  assumes "strings_HasPrefix name ''sso-session ''"
  shows "splitN2_space name = [''sso-session'', drop (length ''sso-session '') name]"
proof -
  have "name = ''sso-session '' @ drop (length ''sso-session '') name"
    using assms append_take_drop_id[of "length ''sso-session ''" name]
    unfolding strings_HasPrefix_def by metis
  then obtain r where r: "name = ''sso-session '' @ r" and d: "drop (length ''sso-session '') name = r"
    by (metis append_eq_conv_conj)
  show ?thesis
    unfolding d unfolding r by (simp add: splitN2_space_def)
qed

lemma matchingSessionNames_eq:
  "matchingSessionNames (trimRightSlash startURL) region cfg matches
     = matches @ map sessionLabel (filter (sessionMatches startURL region) cfg)"
proof (induction cfg arbitrary: matches)
  case Nil
  then show ?case by simp
next
  case (Cons sec cfg)
  show ?case
  proof (cases "strings_HasPrefix (fst sec) ''sso-session ''")
    case True
    then show ?thesis
      using Cons.IH splitN2_space_session[OF True]
      by (simp add: sessionMatches_def sessionLabel_def Let_def)
  next
    case False
    then show ?thesis
      using Cons.IH by (simp add: sessionMatches_def Let_def)
  qed
qed

lemma findAll_eq:
  assumes "config_file w = Some text" and "ini_parse lib text = Some cfg"
  shows "findAllMatchingSsoSessionNames lib startURL region w
     = Some (map sessionLabel (filter (sessionMatches startURL region) cfg))"
  using assms matchingSessionNames_eq[of startURL region cfg "[]"]
  by (simp add: findAllMatchingSsoSessionNames_def ini_Load_def)


text \<open>
  C2, as amended. The request has the default name or none, the file exists and can be
  read, its text does not hold the header of the requested name, and two or more sections of
  the parsed file declare a session for the start URL and region. Then
  \<open>ensureSsoSessionConfigPresent\<close> fails with the error that gives the start URL and the
  region, and the session name and the world are unchanged.
\<close>

theorem ensure_rejects_several_matches:
  assumes "ssoSessionConfigName g = defaultSSOSessionConfigName \<or> ssoSessionConfigName g = []"
    and "config_file w = Some text" and "\<not> fail_ReadFile io"
    and "\<not> strings_Contains text (sessionHeader g)"
    and "ini_parse lib text = Some cfg"
    and "2 \<le> length (filter (sessionMatches (ssoStartURL g) (ssoRegion g)) cfg)"
  shows "ensureSsoSessionConfigPresent lib io g w
     = (Inl (MultipleMatchingSessions (ssoStartURL g) (ssoRegion g)), g, w)"
  using assms findAll_eq[OF assms(2) assms(5), of "ssoStartURL g" "ssoRegion g"]
  by (auto simp: ensureSsoSessionConfigPresent_def)

lemma ensure_header_present:
  assumes "config_file w = Some text" and "\<not> fail_ReadFile io"
    and "strings_Contains text (sessionHeader g)"
  shows "ensureSsoSessionConfigPresent lib io g w = (Inr False, g, w)"
  using assms by (simp add: ensureSsoSessionConfigPresent_def)



lemma two_sessions_parsed:
  "ini_parse simple_ini two_sessions
     = Some [(''sso-session corp'',
              [(''sso_start_url'', ''https://unit.test/start/''), (''sso_region'', ''us-east-1'')]),
             (''sso-session other'',
              [(''sso_start_url'', ''https://unit.test/start''), (''sso_region'', ''us-east-1'')])]"
  by code_simp


theorem ensure_rejects_several_matches_witness:
  "ensureSsoSessionConfigPresent simple_ini no_faults example_globals
     (world_with_config two_sessions)
     = (Inl (MultipleMatchingSessions ''https://unit.test/start'' ''us-east-1''),
        example_globals, world_with_config two_sessions)"
proof -
  let ?cfg = "[(''sso-session corp'',
      [(''sso_start_url'', ''https://unit.test/start/''), (''sso_region'', ''us-east-1'')]),
     (''sso-session other'',
      [(''sso_start_url'', ''https://unit.test/start''), (''sso_region'', ''us-east-1'')])]"
  have h1: "ssoSessionConfigName example_globals = defaultSSOSessionConfigName
      \<or> ssoSessionConfigName example_globals = []"
    by (simp add: example_globals_def defaultSSOSessionConfigName_def)
  have h2: "config_file (world_with_config two_sessions) = Some two_sessions"
    by (simp add: world_with_config_def)
  have h3: "\<not> fail_ReadFile no_faults"
    by (simp add: no_faults_def)
  have h4: "\<not> strings_Contains two_sessions (sessionHeader example_globals)"
    by code_simp
  have h6: "2 \<le> length (filter
      (sessionMatches (ssoStartURL example_globals) (ssoRegion example_globals)) ?cfg)"
    by code_simp
  show ?thesis
    using ensure_rejects_several_matches[OF h1 h2 h3 h4 two_sessions_parsed h6]
    by (simp add: example_globals_def)
qed

text \<open>
  Two inputs with two matching declarations and the default name. Where one of the two is
  itself named \<open>default\<close>, there is no error: the header is found in the text and nothing
  is added. Where neither is, the error is returned and its message names the start URL and
  the region, not the candidates.
\<close>

theorem ambiguity_error_counterexample:
  "findAllMatchingSsoSessionNames simple_ini ''https://unit.test/start'' ''us-east-1''
     (world_with_config default_and_other) = Some [''default'', ''other'']
   \<and> ensureSsoSessionConfigPresent simple_ini no_faults example_globals
       (world_with_config default_and_other)
     = (Inr False, example_globals, world_with_config default_and_other)
   \<and> findAllMatchingSsoSessionNames simple_ini ''https://unit.test/start'' ''us-east-1''
     (world_with_config two_sessions) = Some [''corp'', ''other'']
   \<and> fst (ensureSsoSessionConfigPresent simple_ini no_faults example_globals
       (world_with_config two_sessions))
     = Inl (MultipleMatchingSessions ''https://unit.test/start'' ''us-east-1'')
   \<and> error_message (MultipleMatchingSessions ''https://unit.test/start'' ''us-east-1'')
     = ''multiple matching sso-session blocks found for startUrl https://unit.test/start and region us-east-1''
   \<and> \<not> strings_Contains
         (error_message (MultipleMatchingSessions ''https://unit.test/start'' ''us-east-1''))
         ''corp''"
  by code_simp

subsection \<open>Profile synchronisation runs once\<close>

lemma setProfileKeys_has_session:
  "section_HasKey (setProfileKeys g role keys) ''sso_session''"
  by (simp add: section_HasKey_def setProfileKeys_def update_conv')

lemma file_Section_update_same:
  "file_Section (AList.update name keys cfg) name = keys"
  by (simp add: file_Section_def update_conv')

lemma file_Section_update_other:
  "other \<noteq> name \<Longrightarrow> file_Section (AList.update name keys cfg) other = file_Section cfg other"
  by (simp add: file_Section_def update_conv')

lemma profileExists_after_write:
  assumes "\<not> dryRun g" and "\<not> fail_MkdirAll io" and "\<not> fail_WriteFile io"
    and "\<not> fail_SaveTo io"
    and rt: "ini_parse lib (ini_render lib (profileDocument lib g n role w))
               = Some (profileDocument lib g n role w)"
  shows "profileExists lib m (snd (writeProfileToConfig lib io g n role w))
           = (m = n \<or> profileExists lib m w)"
proof -
  let ?d = "profileDocument lib g n role w"
  have loaded: "ini_Load lib (snd (writeProfileToConfig lib io g n role w)) = Some ?d"
    using assms by (simp add: writeProfileToConfig_def ini_Load_def Let_def)
  show ?thesis
  proof (cases "m = n")
    case True
    then show ?thesis
      using loaded
      by (simp add: profileExists_def profileDocument_def Let_def file_Section_update_same
          setProfileKeys_has_session)
  next
    case False
    then have ne: "''profile '' @ m \<noteq> ''profile '' @ n" by simp
    have "profileExists lib m (snd (writeProfileToConfig lib io g n role w))
        = section_HasKey (file_Section
            (case ini_Load lib w of None \<Rightarrow> [] | Some loaded \<Rightarrow> loaded) (''profile '' @ m))
            ''sso_session''"
      using loaded ne
      by (simp add: profileExists_def profileDocument_def Let_def file_Section_update_other)
    also have "\<dots> = profileExists lib m w"
      by (simp add: profileExists_def file_Section_def section_HasKey_def split: option.splits)
    finally show ?thesis using False by simp
  qed
qed

lemma write_succeeds:
  assumes "\<not> dryRun g" and "\<not> fail_MkdirAll io" and "\<not> fail_WriteFile io"
    and "\<not> fail_SaveTo io"
  shows "fst (writeProfileToConfig lib io g n role w) = None"
  using assms by (simp add: writeProfileToConfig_def Let_def)

lemma profilesLoop_first_run:
  assumes "\<not> dryRun g" and "\<not> fail_MkdirAll io" and "\<not> fail_WriteFile io"
    and "\<not> fail_SaveTo io"
    and "\<forall>cfg \<in> set (savedDocuments lib io g roles w).
           ini_parse lib (ini_render lib cfg) = Some cfg"
  shows "profileExists lib m (fst (profilesLoop lib io g roles (w, added, skipped)))
           = (m \<in> getProfileNameFromRole g ` set roles \<or> profileExists lib m w)"
  using assms(5)
proof (induction roles arbitrary: w added skipped)
  case Nil
  then show ?case by simp
next
  case (Cons role roles)
  let ?n = "getProfileNameFromRole g role"
  show ?case
  proof (cases "profileExists lib ?n w")
    case True
    then have "\<forall>cfg \<in> set (savedDocuments lib io g roles w).
        ini_parse lib (ini_render lib cfg) = Some cfg"
      using Cons.prems by (simp add: Let_def)
    from Cons.IH[OF this] True show ?thesis
      by (auto simp: Let_def)
  next
    case False
    let ?r = "writeProfileToConfig lib io g ?n role w"
    have rt: "ini_parse lib (ini_render lib (profileDocument lib g ?n role w))
        = Some (profileDocument lib g ?n role w)"
      using Cons.prems False by (simp add: Let_def)
    have rest: "\<forall>cfg \<in> set (savedDocuments lib io g roles (snd ?r)).
        ini_parse lib (ini_render lib cfg) = Some cfg"
      using Cons.prems False by (simp add: Let_def)
    have ok: "fst ?r = None"
      using assms(1-4) by (rule write_succeeds)
    then obtain w' where r: "?r = (None, w')"
      by (cases ?r) auto
    have step: "profilesLoop lib io g (role # roles) (w, added, skipped)
        = profilesLoop lib io g roles (snd ?r, added + 1, skipped)"
      using False by (simp add: Let_def r)
    show ?thesis
      unfolding step
      using Cons.IH[OF rest, of "added + 1" skipped]
        profileExists_after_write[OF assms(1-4) rt, of m]
      by auto
  qed
qed

lemma profilesLoop_all_exist:
  assumes "\<forall>role \<in> set roles. profileExists lib (getProfileNameFromRole g role) w"
  shows "profilesLoop lib io g roles (w, added, skipped) = (w, added, skipped + length roles)"
  using assms by (induction roles arbitrary: skipped) (simp_all add: Let_def)

text \<open>
  C3. Outside a dry run, with no failing write and a library that reads back each document
  the first run saves: once \<open>configureSsoProfiles\<close> has run over a list of roles, it has
  returned no error, and a second run over the same roles from the world the first one left,
  whatever fails then, returns no error, adds nothing, counts every role as skipped and
  leaves the world, the configuration file in it, as it was.
\<close>

theorem reconcile_idempotent:
  assumes "\<not> dryRun g" and "\<not> fail_MkdirAll io" and "\<not> fail_WriteFile io"
    and "\<not> fail_SaveTo io"
    and "\<forall>cfg \<in> set (savedDocuments lib io g roles w).
           ini_parse lib (ini_render lib cfg) = Some cfg"
    and "configureSsoProfiles lib io g listing (Inr roles) w = (err, w1, added, skipped)"
  shows "err = None
     \<and> configureSsoProfiles lib io' g listing' (Inr roles) w1 = (None, w1, 0, length roles)"
proof -
  have first: "(err, w1, added, skipped) = (None, profilesLoop lib io g roles (w, 0, 0))"
    using assms(1,6) by (simp add: configureSsoProfiles_def)
  then have w1: "w1 = fst (profilesLoop lib io g roles (w, 0, 0))" and e: "err = None"
    by (auto simp: prod_eq_iff)
  have "\<forall>role \<in> set roles. profileExists lib (getProfileNameFromRole g role) w1"
    unfolding w1 using profilesLoop_first_run[OF assms(1-5)] by simp
  then have "profilesLoop lib io' g roles (w1, 0, 0) = (w1, 0, 0 + length roles)"
    by (rule profilesLoop_all_exist)
  then show ?thesis
    using e assms(1) by (simp add: configureSsoProfiles_def)
qed



lemma example_saved_documents:
  "savedDocuments simple_ini no_faults example_globals [example_role, second_role] example_world
     = [[(''profile old'', [(''sso_session'', ''default'')]),
         (''profile ReadOnly_My-App_123'',
          [(''sso_session'', ''default''), (''sso_account_id'', ''123''),
           (''sso_role_name'', ''AWSReadOnlyAccess''),
           (''region'', ''us-east-1''), (''output'', ''json'')])],
        [(''profile old'', [(''sso_session'', ''default'')]),
         (''profile ReadOnly_My-App_123'',
          [(''sso_session'', ''default''), (''sso_account_id'', ''123''),
           (''sso_role_name'', ''AWSReadOnlyAccess''),
           (''region'', ''us-east-1''), (''output'', ''json'')]),
         (''profile PowerUser_Dev-Team_456'',
          [(''sso_session'', ''default''), (''sso_account_id'', ''456''),
           (''sso_role_name'', ''AWSPowerUserAccess''),
           (''region'', ''us-east-1''), (''output'', ''json'')])]]"
  by code_simp

lemma example_documents_read_back:
  "\<forall>cfg \<in> set (savedDocuments simple_ini no_faults example_globals
       [example_role, second_role] example_world).
     ini_parse simple_ini (ini_render simple_ini cfg) = Some cfg"
  unfolding example_saved_documents by code_simp

lemma example_first_run:
  "configureSsoProfiles simple_ini no_faults example_globals None
     (Inr [example_role, second_role]) example_world
     = (None, example_world\<lparr>config_file := Some synced_config\<rparr>, 2, 0)"
  by code_simp

theorem reconcile_idempotent_witness:
  "configureSsoProfiles simple_ini no_faults example_globals None
     (Inr [example_role, second_role]) example_world
     = (None, example_world\<lparr>config_file := Some synced_config\<rparr>, 2, 0)
   \<and> configureSsoProfiles simple_ini no_faults example_globals None
     (Inr [example_role, second_role]) (example_world\<lparr>config_file := Some synced_config\<rparr>)
     = (None, example_world\<lparr>config_file := Some synced_config\<rparr>, 0, 2)"
proof -
  have h1: "\<not> dryRun example_globals"
    by (simp add: example_globals_def)
  have h2: "\<not> fail_MkdirAll no_faults" "\<not> fail_WriteFile no_faults" "\<not> fail_SaveTo no_faults"
    by (simp_all add: no_faults_def)
  show ?thesis
    using reconcile_idempotent[OF h1 h2 example_documents_read_back example_first_run,
        of no_faults None] example_first_run
    by simp
qed

subsection \<open>Dry run\<close>

text \<open>
  What holds in a dry run: \<open>ensureSsoSessionConfigPresent\<close>, \<open>writeProfileToConfig\<close> and
  \<open>configureSsoProfiles\<close> leave the world as it is, whatever they report; and
  \<open>runAwsSsoLogin\<close>, in a dry run or not, leaves the configuration file as it is.
\<close>

lemma ensure_dry_run_frame:
  "dryRun g \<Longrightarrow> snd (snd (ensureSsoSessionConfigPresent lib io g w)) = w"
  by (simp add: ensureSsoSessionConfigPresent_def appendSessionBlock_def Let_def
      split: option.splits)

lemma write_dry_run_frame:
  "dryRun g \<Longrightarrow> writeProfileToConfig lib io g profileName role w = (None, w)"
  by (simp add: writeProfileToConfig_def)

lemma profilesLoop_dry_run_frame:
  "dryRun g \<Longrightarrow> fst (profilesLoop lib io g roles (w, added, skipped)) = w"
  by (induction roles arbitrary: added skipped) (simp_all add: Let_def write_dry_run_frame)

lemma configure_dry_run_frame:
  "dryRun g \<Longrightarrow> fst (snd (configureSsoProfiles lib io g listing found w)) = w"
  by (simp add: configureSsoProfiles_def profilesLoop_dry_run_frame split: sum.splits)

lemma writeTokenCache_config_frame:
  "config_file (snd (writeTokenCache io g accessToken expiresIn w)) = config_file w"
  by (simp add: writeTokenCache_def Let_def)

lemma login_config_frame:
  "config_file (snd (runAwsSsoLogin oidc io g w)) = config_file w"
  by (simp add: runAwsSsoLogin_def Let_def writeTokenCache_config_frame
      del: pollForToken.simps split: option.splits sum.splits prod.splits)

lemma example_poll_granted:
  "pollForToken granted 5 (clock login_world + 12 * second) (clock login_world) 0
     = (Inr (Some \<lparr>AccessToken = Some ''fresh-token'', TokenExpiresIn = 28800\<rparr>),
        clock login_world, Suc 0)"
  by code_simp

lemma example_token_written:
  "writeTokenCache no_faults dry_run_globals ''fresh-token'' 28800 login_world
     = (None, login_world\<lparr>cache_dir := Some [written_token]\<rparr>)"
  by code_simp

text \<open>
  C1. \<open>runAwsSsoLogin\<close> never reads \<open>dryRun\<close>: in a dry run with an empty cache and a
  provider that grants the token at the first attempt, it creates the cache directory and
  writes the token file.
\<close>

theorem dry_run_login_writes_cache:
  "dryRun dry_run_globals
   \<and> cache_dir login_world = None
   \<and> runAwsSsoLogin (example_oidc granted) no_faults dry_run_globals login_world
     = (None, login_world\<lparr>cache_dir := Some [written_token]\<rparr>)"
proof -
  have "dryRun dry_run_globals"
    by (simp add: dry_run_globals_def)
  moreover have "cache_dir login_world = None"
    by (simp add: login_world_def)
  moreover have "login_world\<lparr>clock := clock login_world\<rparr> = login_world"
    by simp
  then have "runAwsSsoLogin (example_oidc granted) no_faults dry_run_globals login_world
     = (None, login_world\<lparr>cache_dir := Some [written_token]\<rparr>)"
    using example_poll_granted example_token_written
    by (simp add: runAwsSsoLogin_def example_oidc_def example_device_def)
  ultimately show ?thesis by blast
qed

end
